theory Spec2Isabelle
  imports Complex_Main
begin

section \<open>The Gaussian distribution of the mixed logit discrete choice model\<close>

text \<open>
  A shallow embedding of \<^verbatim>\<open>mlpack/mixed_logit_dcm/gaussian_distribution.h\<close>,
  class \<^verbatim>\<open>GaussianDistribution\<close>.

  \<^item> A C++ \<^verbatim>\<open>int\<close> is an \<open>int\<close> of HOL together with the range check
    \<open>int_ok\<close>: signed overflow is undefined behaviour in C++, and the model
    stops with \<open>SignedOverflow\<close> where the source would overflow.
  \<^item> A \<^verbatim>\<open>double\<close> is a \<open>real\<close>: the source itself only copies and looks
    up the entries of its vectors; the arithmetic on them (the difference and the
    solve of \<^verbatim>\<open>SamplingAccumulatePrecompute\<close>, the product and the sum of
    \<^verbatim>\<open>DrawBeta\<close>) is handed to the linear algebra library.
  \<^item> \<^verbatim>\<open>std::vector<int>\<close> and \<^verbatim>\<open>arma::vec\<close> are lists; \<^verbatim>\<open>arma::mat\<close>
    is the list of its rows. Neither \<^verbatim>\<open>operator[]\<close> nor \<^verbatim>\<open>.at\<close> checks
    its index: an access outside the container is undefined behaviour, and the
    model stops with \<open>OutOfBounds\<close>. The length of a vector is read as an
    \<^verbatim>\<open>int\<close>; vectors are taken to be shorter than \<open>2 ^ 31\<close> elements.
  \<^item> Every function that writes through a \<^verbatim>\<open>PrivateData *\<close> takes the
    record and returns the updated one. The fields keep the names of the members
    without their trailing underscore.
\<close>

subsection \<open>Faults\<close>

text \<open>
  \<open>OutOfBounds\<close> and \<open>SignedOverflow\<close> stand for undefined behaviour of the
  C++ source (nothing is raised there). \<open>AllocationFailure\<close> is the exception of
  \<^verbatim>\<open>std::vector::resize\<close> and \<^verbatim>\<open>arma::mat::zeros\<close> for a negative count,
  which the conversion to an unsigned size turns into a huge one. \<open>SizeMismatch\<close>
  is the library's exception for operands of different sizes, and
  \<open>SingularFactorError\<close> the failure of the linear solve.
\<close>

datatype fault =
    OutOfBounds
  | SignedOverflow
  | AllocationFailure
  | SizeMismatch
  | SingularFactorError

subsection \<open>Machine integers and unchecked indexing\<close>

definition INT_MIN :: int where
  "INT_MIN = - 2147483648"

definition INT_MAX :: int where
  "INT_MAX = 2147483647"

definition int_ok :: "int \<Rightarrow> bool" where
  "int_ok x = (INT_MIN \<le> x \<and> x \<le> INT_MAX)"

text \<open>Division of C++ \<^verbatim>\<open>int\<close>s truncates towards zero.\<close>

definition int_div :: "int \<Rightarrow> int \<Rightarrow> int" where
  "int_div a b = sgn a * sgn b * (\<bar>a\<bar> div \<bar>b\<bar>)"

text \<open>
  An \<^verbatim>\<open>int\<close> index is converted to an unsigned size: a negative one lands
  beyond every container.
\<close>

definition in_bounds :: "int \<Rightarrow> 'a list \<Rightarrow> bool" where
  "in_bounds i xs = (0 \<le> i \<and> i < int (length xs))"

subsection \<open>The context\<close>

record PrivateData =
  cholesky_factor_dimension :: int
  num_cholesky_factor_entries :: int
  nonzero_column_indices :: "int list"
  start_indices :: "int list"
  cached_solution :: "real list"
  cholesky_factor :: "real list list"

text \<open>The constructor \<^verbatim>\<open>PrivateData()\<close>.\<close>

definition PrivateData_new :: PrivateData where
  "PrivateData_new =
     \<lparr> cholesky_factor_dimension = 0,
       num_cholesky_factor_entries = 0,
       nonzero_column_indices = [],
       start_indices = [],
       cached_solution = [],
       cholesky_factor = [] \<rparr>"

subsection \<open>The row cursor of the triangular walk\<close>

text \<open>
  The \<^verbatim>\<open>for\<close> statements of \<^verbatim>\<open>SetupCholeskyFactor_\<close> and of \<^verbatim>\<open>Init\<close>
  walk the entries of the upper triangle row by row, and the body of each opens
  with the same block,
  \<^verbatim>\<open>if(i == limit) { limit += add; add--; row_num++; start = i; }\<close>.
  The cursor is the tuple \<open>(limit, add, row_num, start)\<close>.
\<close>

type_synonym cursor = "int \<times> int \<times> int \<times> int"

definition next_row :: "int \<Rightarrow> cursor \<Rightarrow> fault + cursor" where
  "next_row i c =
     (case c of (limit, add, row_num, start) \<Rightarrow>
        if i = limit then
          if int_ok (limit + add) \<and> int_ok (add - 1) \<and> int_ok (row_num + 1)
          then Inr (limit + add, add - 1, row_num + 1, i)
          else Inl SignedOverflow
        else Inr c)"

subsection \<open>Init\<close>

text \<open>
  The loop of \<^verbatim>\<open>Init\<close> (lines 191 to 203). \<open>K\<close> and \<open>ne\<close> are the fields
  \<^verbatim>\<open>cholesky_factor_dimension\<close> and \<^verbatim>\<open>num_cholesky_factor_entries\<close>,
  which the loop only reads; \<open>nzc\<close> and \<open>sidx\<close> are the two tables it writes.
\<close>

function Init_loop ::
  "int \<Rightarrow> int \<Rightarrow> int \<Rightarrow> cursor \<Rightarrow> int list \<Rightarrow> int list \<Rightarrow> fault + (int list \<times> int list)"
where
  "Init_loop K ne i c nzc sidx =
     (if i < ne then
        (case next_row i c of
           Inl e \<Rightarrow> Inl e
         | Inr (limit, add, row_num, start) \<Rightarrow>
             if \<not> int_ok (K + i) then Inl SignedOverflow
             else if \<not> in_bounds (K + i) nzc then Inl OutOfBounds
             else if \<not> int_ok (K + start) then Inl SignedOverflow
             else if \<not> in_bounds (K + i) sidx then Inl OutOfBounds
             else if \<not> int_ok (i + 1) then Inl SignedOverflow
             else Init_loop K ne (i + 1) (limit, add, row_num, start)
                    (nzc[nat (K + i) := row_num])
                    (sidx[nat (K + i) := K + start]))
      else Inr (nzc, sidx))"
  by pat_completeness auto
termination
  by (relation "measure (\<lambda>(K, ne, i, c, nzc, sidx). nat (ne - i))") auto

declare Init_loop.simps [simp del]

text \<open>
  \<^verbatim>\<open>Init\<close> proper. The two out-parameters are returned as a pair; the fields
  \<^verbatim>\<open>cached_solution\<close> and \<^verbatim>\<open>cholesky_factor\<close> of the context are not
  touched. The checks follow the order of the statements: the parameter count, the
  entry count, the two \<^verbatim>\<open>resize\<close> calls, the loop. (\<open>K - 1\<close> cannot
  overflow once \<open>K * (K + 3)\<close> has not.)
\<close>

definition Init :: "int list \<Rightarrow> PrivateData \<Rightarrow> fault + (int \<times> PrivateData)" where
  "Init attribute_dimensions_in private_data_out =
     (case attribute_dimensions_in of
        [] \<Rightarrow> Inl OutOfBounds
      | num_attributes_in # _ \<Rightarrow>
          if \<not> int_ok (num_attributes_in + 3)
             \<or> \<not> int_ok (num_attributes_in * (num_attributes_in + 3))
          then Inl SignedOverflow
          else
            let num_parameters_out =
                  int_div (num_attributes_in * (num_attributes_in + 3)) 2;
                K = num_attributes_in
            in
            if \<not> int_ok (K + 1) \<or> \<not> int_ok (K * (K + 1)) then Inl SignedOverflow
            else
              let ne = int_div (K * (K + 1)) 2 in
              if num_parameters_out < 0 then Inl AllocationFailure
              else
                (case Init_loop K ne 0 (K, K - 1, 0, 0)
                        (replicate (nat num_parameters_out) 0)
                        (replicate (nat num_parameters_out) 0) of
                   Inl e \<Rightarrow> Inl e
                 | Inr (nzc, sidx) \<Rightarrow>
                     Inr (num_parameters_out,
                          private_data_out
                            \<lparr> cholesky_factor_dimension := K,
                              num_cholesky_factor_entries := ne,
                              nonzero_column_indices := nzc,
                              start_indices := sidx \<rparr>)))"

subsection \<open>AttributeGradientWithRespectToParameter\<close>

definition AttributeGradientWithRespectToParameter ::
  "PrivateData \<Rightarrow> real list \<Rightarrow> real list \<Rightarrow> int \<Rightarrow> int \<Rightarrow> fault + real"
where
  "AttributeGradientWithRespectToParameter private_data parameters beta_vector
       row_index col_index =
     (let num_attributes = int (length beta_vector) in
      if row_index < num_attributes then
        (if row_index = col_index then Inr 1 else Inr 0)
      else if \<not> in_bounds row_index (nonzero_column_indices private_data)
      then Inl OutOfBounds
      else
        let nonzero_column_index =
              nonzero_column_indices private_data ! nat row_index
        in
        if nonzero_column_index = col_index then
          if \<not> in_bounds row_index (start_indices private_data) then Inl OutOfBounds
          else
            let s = start_indices private_data ! nat row_index in
            if \<not> int_ok (row_index - s)
               \<or> \<not> int_ok (row_index - s + nonzero_column_index)
            then Inl SignedOverflow
            else if \<not> in_bounds (row_index - s + nonzero_column_index)
                        (cached_solution private_data)
            then Inl OutOfBounds
            else Inr (cached_solution private_data
                        ! nat (row_index - s + nonzero_column_index))
        else Inr 0)"

subsection \<open>SetupCholeskyFactor and SetupDistribution\<close>

text \<open>
  \<^verbatim>\<open>zeros(n, n)\<close> and the unchecked element write \<^verbatim>\<open>.at(r, c) = v\<close> on the
  list of rows.
\<close>

definition zeros :: "nat \<Rightarrow> real list list" where
  "zeros n = replicate n (replicate n 0)"

definition mat_in_bounds :: "int \<Rightarrow> int \<Rightarrow> real list list \<Rightarrow> bool" where
  "mat_in_bounds r c M = (in_bounds r M \<and> in_bounds c (M ! nat r))"

definition mat_set :: "int \<Rightarrow> int \<Rightarrow> real \<Rightarrow> real list list \<Rightarrow> real list list" where
  "mat_set r c v M = M[nat r := (M ! nat r)[nat c := v] ]"

text \<open>
  The loop of \<^verbatim>\<open>SetupCholeskyFactor_\<close> (lines 64 to 73); \<open>M\<close> is the factor
  under construction.
\<close>

function SetupCholeskyFactor_loop ::
  "int \<Rightarrow> int \<Rightarrow> real list \<Rightarrow> int \<Rightarrow> cursor \<Rightarrow> real list list \<Rightarrow> fault + real list list"
where
  "SetupCholeskyFactor_loop K ne parameters i c M =
     (if i < ne then
        (case next_row i c of
           Inl e \<Rightarrow> Inl e
         | Inr (limit, add, row_num, start) \<Rightarrow>
             if \<not> int_ok (row_num + i) \<or> \<not> int_ok (row_num + i - start)
             then Inl SignedOverflow
             else if \<not> int_ok (K + i) then Inl SignedOverflow
             else if \<not> in_bounds (K + i) parameters then Inl OutOfBounds
             else if \<not> mat_in_bounds row_num (row_num + i - start) M then Inl OutOfBounds
             else if \<not> int_ok (i + 1) then Inl SignedOverflow
             else SetupCholeskyFactor_loop K ne parameters (i + 1)
                    (limit, add, row_num, start)
                    (mat_set row_num (row_num + i - start) (parameters ! nat (K + i)) M))
      else Inr M)"
  by pat_completeness auto
termination
  by (relation "measure (\<lambda>(K, ne, parameters, i, c, M). nat (ne - i))") auto

declare SetupCholeskyFactor_loop.simps [simp del]

definition SetupCholeskyFactor ::
  "real list \<Rightarrow> PrivateData \<Rightarrow> fault + PrivateData"
where
  "SetupCholeskyFactor parameters private_data =
     (let K = cholesky_factor_dimension private_data in
      if K < 0 then Inl AllocationFailure
      else
        (case SetupCholeskyFactor_loop K (num_cholesky_factor_entries private_data)
                parameters 0 (K, K - 1, 0, 0) (zeros (nat K)) of
           Inl e \<Rightarrow> Inl e
         | Inr M \<Rightarrow> Inr (private_data \<lparr> cholesky_factor := M \<rparr>)))"

definition SetupDistribution ::
  "real list \<Rightarrow> PrivateData \<Rightarrow> fault + PrivateData"
where
  "SetupDistribution parameters private_data =
     SetupCholeskyFactor parameters private_data"

subsection \<open>The linear algebra primitives\<close>

text \<open>
  The vector operations of the library, on lists: the view of the first \<open>n\<close>
  entries of the parameter vector (reading it beyond the vector is undefined
  behaviour), the elementwise difference and sum, and the product of a matrix and
  a vector.
\<close>

definition mean_view :: "real list \<Rightarrow> nat \<Rightarrow> fault + real list" where
  "mean_view parameters n =
     (if length parameters < n then Inl OutOfBounds else Inr (take n parameters))"

definition vec_sub :: "real list \<Rightarrow> real list \<Rightarrow> fault + real list" where
  "vec_sub a b =
     (if length a = length b then Inr (map2 (-) a b) else Inl SizeMismatch)"

definition vec_add :: "real list \<Rightarrow> real list \<Rightarrow> fault + real list" where
  "vec_add a b =
     (if length a = length b then Inr (map2 (+) a b) else Inl SizeMismatch)"

definition n_cols :: "real list list \<Rightarrow> nat" where
  "n_cols M = (case M of [] \<Rightarrow> 0 | row # _ \<Rightarrow> length row)"

definition dot :: "real list \<Rightarrow> real list \<Rightarrow> real" where
  "dot a b = sum_list (map2 (*) a b)"

definition mat_vec :: "real list list \<Rightarrow> real list \<Rightarrow> real list" where
  "mat_vec M v = map (\<lambda>row. dot row v) M"

text \<open>
  Modelled from the spec: \<^verbatim>\<open>arma::solve\<close>, the linear solve of the library,
  is not part of the source file. The specification describes it as the triangular
  solve \<^verbatim>\<open>solve(triangularMatrix, rhsVector) -> xVector\<close> of the system
  \<open>factor * x = rhs\<close>. \<open>back_subst M b k\<close> is back substitution on the upper
  triangle of \<open>M\<close>: it solves the last \<open>k\<close> equations, the last one first.
\<close>

primrec back_subst :: "real list list \<Rightarrow> real list \<Rightarrow> nat \<Rightarrow> real list" where
  "back_subst M b 0 = []"
| "back_subst M b (Suc k) =
     (let i = length M - Suc k;
          xs = back_subst M b k
      in (b ! i - dot (drop (Suc i) (M ! i)) xs) / (M ! i ! i) # xs)"

text \<open>
  Modelled from the spec: the diagonal of the factor, which the specification's
  SingularFactorError is about.
\<close>

definition diagonal :: "real list list \<Rightarrow> real list" where
  "diagonal M = map (\<lambda>i. M ! i ! i) [0..<length M]"

text \<open>
  Modelled from the spec: \<^verbatim>\<open>arma::solve\<close> on a square factor and a right-hand
  side of the same dimension. The specification asks that a factor with a zero
  diagonal entry, for which the solve is ill-posed, is surfaced as a
  SingularFactorError and not as a value; otherwise the solution is returned. The
  entries below the diagonal are not read: the factor of the source is upper
  triangular.
\<close>

definition solve :: "real list list \<Rightarrow> real list \<Rightarrow> fault + real list" where
  "solve M b =
     (if length M \<noteq> length b \<or> n_cols M \<noteq> length M then Inl SizeMismatch
      else if 0 \<in> set (diagonal M) then Inl SingularFactorError
      else Inr (back_subst M b (length M)))"

subsection \<open>SamplingAccumulatePrecompute\<close>

definition SamplingAccumulatePrecompute ::
  "real list \<Rightarrow> real list \<Rightarrow> PrivateData \<Rightarrow> fault + PrivateData"
where
  "SamplingAccumulatePrecompute parameters beta_vector private_data =
     (case mean_view parameters (length beta_vector) of
        Inl e \<Rightarrow> Inl e
      | Inr mean_vector \<Rightarrow>
          (case vec_sub beta_vector mean_vector of
             Inl e \<Rightarrow> Inl e
           | Inr right_hand_side \<Rightarrow>
               (case solve (cholesky_factor private_data) right_hand_side of
                  Inl e \<Rightarrow> Inl e
                | Inr x \<Rightarrow> Inr (private_data \<lparr> cached_solution := x \<rparr>))))"

subsection \<open>DrawBeta\<close>

text \<open>
  \<^verbatim>\<open>core::math::RandGaussian\<close> is not part of the source file: the random
  source is the parameter \<open>RandGaussian\<close>, which gives the value of the
  \<open>i\<close>-th call \<^verbatim>\<open>RandGaussian(1.0)\<close> of one draw.
\<close>

definition DrawBeta ::
  "(nat \<Rightarrow> real) \<Rightarrow> PrivateData \<Rightarrow> real list \<Rightarrow> fault + real list"
where
  "DrawBeta RandGaussian private_data parameters =
     (let n = n_cols (cholesky_factor private_data);
          random_gaussian_vector = map RandGaussian [0..<n]
      in
      case mean_view parameters n of
        Inl e \<Rightarrow> Inl e
      | Inr mean \<Rightarrow>
          vec_add (mat_vec (cholesky_factor private_data) random_gaussian_vector) mean)"

section \<open>Vocabulary of the specification\<close>

text \<open>
  \<open>row_start K r\<close> is the number of entries of the upper triangle that lie in the
  rows before row \<open>r\<close>: row \<open>q\<close> holds \<open>K - q\<close> entries.
\<close>

primrec row_start :: "int \<Rightarrow> nat \<Rightarrow> int" where
  "row_start K 0 = 0"
| "row_start K (Suc r) = row_start K r + (K - int r)"

text \<open>The cursor of the walk while it is in row \<open>r\<close>.\<close>

definition row_cursor :: "int \<Rightarrow> nat \<Rightarrow> cursor" where
  "row_cursor K r = (row_start K (Suc r), K - int r - 1, int r, row_start K r)"

text \<open>Entry \<open>j\<close> of the row-major walk lies in row \<open>r\<close>.\<close>

definition slot_row :: "int \<Rightarrow> int \<Rightarrow> nat \<Rightarrow> bool" where
  "slot_row K j r = (r < nat K \<and> row_start K r \<le> j \<and> j < row_start K (Suc r))"

text \<open>
  The two layout tables are filled in for the first \<open>i\<close> entries of the walk:
  the table entry of parameter \<open>K + j\<close> holds the row of entry \<open>j\<close> and the
  parameter index at which that row begins.
\<close>

definition layout_upto :: "int \<Rightarrow> int \<Rightarrow> int list \<Rightarrow> int list \<Rightarrow> bool" where
  "layout_upto K i nzc sidx =
     (\<forall>j. 0 \<le> j \<and> j < i \<longrightarrow>
        (\<exists>r. slot_row K j r \<and> nzc ! nat (K + j) = int r
             \<and> sidx ! nat (K + j) = K + row_start K r))"

text \<open>
  The factor after the first \<open>i\<close> entries of the walk have been placed: a
  \<open>K\<close> by \<open>K\<close> matrix that holds the parameters of these entries and is zero
  elsewhere.
\<close>

definition factor_upto :: "int \<Rightarrow> real list \<Rightarrow> int \<Rightarrow> real list list \<Rightarrow> bool" where
  "factor_upto K parameters i M =
     (length M = nat K \<and> (\<forall>r<nat K. length (M ! r) = nat K) \<and>
      (\<forall>r c. r < nat K \<and> c < nat K \<longrightarrow>
         M ! r ! c =
           (if r \<le> c \<and> row_start K r + int c - int r < i
            then parameters ! nat (K + row_start K r + int c - int r) else 0)))"

text \<open>
  Packing a factor into a parameter vector: the mean first, then the entries of
  the upper triangle row by row (row \<open>r\<close> contributes its entries from the
  diagonal on).
\<close>

definition pack_upper :: "real list list \<Rightarrow> nat \<Rightarrow> real list" where
  "pack_upper F m = concat (map (\<lambda>r. drop r (F ! r)) [0..<m])"

definition pack_parameters :: "real list \<Rightarrow> real list list \<Rightarrow> real list" where
  "pack_parameters mean F = mean @ pack_upper F (length F)"

text \<open>Square matrices of dimension \<open>n\<close>, and matrices that are zero below the diagonal.\<close>

definition square :: "nat \<Rightarrow> real list list \<Rightarrow> bool" where
  "square n F = (length F = n \<and> (\<forall>r<n. length (F ! r) = n))"

definition upper_triangular :: "real list list \<Rightarrow> bool" where
  "upper_triangular F = (\<forall>r<length F. \<forall>c<r. F ! r ! c = 0)"

text \<open>
  The contexts that \<^verbatim>\<open>Init\<close> builds for the dimensions 1 and 2, used by the
  worked examples below.
\<close>

definition layout_K1 :: PrivateData where
  "layout_K1 =
     \<lparr> cholesky_factor_dimension = 1,
       num_cholesky_factor_entries = 1,
       nonzero_column_indices = [0, 0],
       start_indices = [0, 1],
       cached_solution = [],
       cholesky_factor = [] \<rparr>"

definition layout_K2 :: PrivateData where
  "layout_K2 =
     \<lparr> cholesky_factor_dimension = 2,
       num_cholesky_factor_entries = 3,
       nonzero_column_indices = [0, 0, 0, 0, 1],
       start_indices = [0, 0, 2, 2, 4],
       cached_solution = [],
       cholesky_factor = [] \<rparr>"

section \<open>The triangular walk\<close>

lemma row_start_closed: "2 * row_start K r = int r * (2 * K - int r + 1)"
  by (induction r) (simp_all add: algebra_simps)

lemma row_start_strict: "r < r' \<Longrightarrow> r' \<le> nat K \<Longrightarrow> row_start K r < row_start K r'"
proof (induction r')
  case 0
  then show ?case by simp
next
  case (Suc r')
  show ?case
  proof (cases "r = r'")
    case True
    with Suc.prems show ?thesis by simp
  next
    case False
    with Suc.prems have "r < r'" "r' \<le> nat K" by simp_all
    then have "row_start K r < row_start K r'" by (rule Suc.IH)
    moreover from Suc.prems have "row_start K r' < row_start K (Suc r')" by simp
    ultimately show ?thesis by simp
  qed
qed

lemma row_start_mono: "r \<le> r' \<Longrightarrow> r' \<le> nat K \<Longrightarrow> row_start K r \<le> row_start K r'"
  using row_start_strict [of r r' K] by (cases "r = r'") simp_all

lemma row_start_nonneg: "r \<le> nat K \<Longrightarrow> 0 \<le> row_start K r"
  using row_start_mono [of 0 r K] by simp

lemma row_start_total: "0 \<le> K \<Longrightarrow> row_start K (nat K) = K * (K + 1) div 2"
proof -
  assume "0 \<le> K"
  then have "2 * row_start K (nat K) = K * (K + 1)"
    by (simp add: row_start_closed algebra_simps)
  then show ?thesis by simp
qed

lemma int_div_nonneg: "0 \<le> a \<Longrightarrow> 0 < b \<Longrightarrow> int_div a b = a div b"
  by (cases "a = 0") (simp_all add: int_div_def)

lemma slot_row_unique: "slot_row K j r \<Longrightarrow> slot_row K j r' \<Longrightarrow> r = r'"
proof (rule ccontr)
  assume a: "slot_row K j r" "slot_row K j r'" and ne: "r \<noteq> r'"
  show False
  proof (cases "r < r'")
    case True
    then have "row_start K (Suc r) \<le> row_start K r'"
      using a by (intro row_start_mono) (simp_all add: slot_row_def)
    with a show False by (simp add: slot_row_def)
  next
    case False
    with ne have "row_start K (Suc r') \<le> row_start K r"
      using a by (intro row_start_mono) (simp_all add: slot_row_def)
    with a show False by (simp add: slot_row_def)
  qed
qed

lemma next_row_cursor:
  assumes r: "r < nat K"
    and lo: "row_start K r \<le> i"
    and hi: "i \<le> row_start K (Suc r)"
    and i: "i < row_start K (nat K)"
    and fit: "K + row_start K (nat K) \<le> INT_MAX"
  shows "\<exists>r'. next_row i (row_cursor K r) = Inr (row_cursor K r') \<and> slot_row K i r'"
proof (cases "i = row_start K (Suc r)")
  case True
  have "Suc r \<noteq> nat K"
  proof
    assume "Suc r = nat K"
    then have "row_start K (Suc r) = row_start K (nat K)" by (simp only:)
    with True i show False by simp
  qed
  with r have r': "Suc r < nat K" by simp
  then have le: "row_start K (Suc (Suc r)) \<le> row_start K (nat K)"
    by (intro row_start_mono) simp_all
  have nn: "0 \<le> row_start K (Suc r)"
    using r by (intro row_start_nonneg) simp
  have K: "K \<le> INT_MAX"
    using fit row_start_nonneg [of "nat K" K] by simp
  have "int_ok (row_start K (Suc r) + (K - int r - 1))"
    using le fit nn r' K by (simp add: int_ok_def INT_MIN_def)
  moreover have "int_ok (K - int r - 1 - 1)"
    using r' K by (simp add: int_ok_def INT_MIN_def)
  moreover have "int_ok (int r + 1)"
    using r' K by (simp add: int_ok_def INT_MIN_def)
  ultimately have "next_row i (row_cursor K r) = Inr (row_cursor K (Suc r))"
    using True by (simp add: next_row_def row_cursor_def algebra_simps)
  moreover have "slot_row K i (Suc r)"
    using True r' by (simp add: slot_row_def)
  ultimately show ?thesis by blast
next
  case False
  then have "next_row i (row_cursor K r) = Inr (row_cursor K r)"
    by (simp add: next_row_def row_cursor_def)
  moreover have "slot_row K i r"
    using False r lo hi by (simp add: slot_row_def)
  ultimately show ?thesis by blast
qed

lemma Init_loop_ok:
  assumes K: "1 \<le> K"
    and ne: "ne = row_start K (nat K)"
    and fit: "K + ne \<le> INT_MAX"
    and len: "length nzc = nat (K + ne)" "length sidx = nat (K + ne)"
    and r: "r < nat K" "row_start K r \<le> i" "i \<le> row_start K (Suc r)"
    and i: "i \<le> ne"
    and inv: "layout_upto K i nzc sidx"
  shows "\<exists>nzc' sidx'. Init_loop K ne i (row_cursor K r) nzc sidx = Inr (nzc', sidx')
           \<and> length nzc' = nat (K + ne) \<and> length sidx' = nat (K + ne)
           \<and> layout_upto K ne nzc' sidx'"
  using len r i inv
proof (induction "nat (ne - i)" arbitrary: i r nzc sidx)
  case 0
  then have "i = ne" by simp
  with 0 show ?case by (subst Init_loop.simps) simp
next
  case (Suc n)
  from Suc.hyps(2) have lt: "i < ne" by simp
  have i0: "0 \<le> i"
    using Suc.prems(3,4) row_start_nonneg [of r K] by simp
  obtain r' where nr: "next_row i (row_cursor K r) = Inr (row_cursor K r')"
    and sr: "slot_row K i r'"
    using next_row_cursor [of r K i] Suc.prems(3,4,5) lt fit ne by blast
  let ?nzc = "nzc[nat (K + i) := int r']"
  let ?sidx = "sidx[nat (K + i) := K + row_start K r']"
  have ok1: "int_ok (K + i)" "int_ok (i + 1)" "int_ok (K + row_start K r')"
    using K i0 lt fit sr row_start_nonneg [of r' K]
    by (simp_all add: int_ok_def INT_MIN_def slot_row_def)
  have ib: "in_bounds (K + i) nzc" "in_bounds (K + i) sidx"
    using K i0 lt Suc.prems(1,2) by (simp_all add: in_bounds_def)
  have nb: "nat (K + i) < length nzc" "nat (K + i) < length sidx"
    using K i0 lt Suc.prems(1,2) by simp_all
  have step: "Init_loop K ne i (row_cursor K r) nzc sidx
                = Init_loop K ne (i + 1) (row_cursor K r') ?nzc ?sidx"
    using lt nr ok1 ib
    by (subst Init_loop.simps) (simp add: row_cursor_def)
  have inv': "layout_upto K (i + 1) ?nzc ?sidx"
    unfolding layout_upto_def
  proof (intro allI impI)
    fix j assume j: "0 \<le> j \<and> j < i + 1"
    show "\<exists>r. slot_row K j r \<and> ?nzc ! nat (K + j) = int r
               \<and> ?sidx ! nat (K + j) = K + row_start K r"
    proof (cases "j = i")
      case True
      with sr nb show ?thesis
        by (intro exI [of _ r']) simp
    next
      case False
      with j have "0 \<le> j \<and> j < i" by simp
      with Suc.prems(7) obtain q where "slot_row K j q"
        "nzc ! nat (K + j) = int q" "sidx ! nat (K + j) = K + row_start K q"
        unfolding layout_upto_def by blast
      moreover have "nat (K + i) \<noteq> nat (K + j)"
        using False K i0 j by (simp add: nat_eq_iff)
      ultimately show ?thesis by (intro exI [of _ q]) simp
    qed
  qed
  have "\<exists>nzc' sidx'. Init_loop K ne (i + 1) (row_cursor K r') ?nzc ?sidx = Inr (nzc', sidx')
           \<and> length nzc' = nat (K + ne) \<and> length sidx' = nat (K + ne)
           \<and> layout_upto K ne nzc' sidx'"
  proof (rule Suc.hyps(1))
    show "n = nat (ne - (i + 1))" using Suc.hyps(2) by simp
    show "length ?nzc = nat (K + ne)" "length ?sidx = nat (K + ne)"
      using Suc.prems(1,2) by simp_all
    show "r' < nat K" "row_start K r' \<le> i + 1" "i + 1 \<le> row_start K (Suc r')"
      using sr by (simp_all add: slot_row_def)
    show "i + 1 \<le> ne" using lt by simp
    show "layout_upto K (i + 1) ?nzc ?sidx" by (rule inv')
  qed
  with step show ?case by simp
qed

lemma half_params: "K * (K + 3) div 2 = K + K * (K + 1) div (2::int)"
proof -
  have "K * (K + 3) = K * (K + 1) + K * 2" by (simp add: algebra_simps)
  then show ?thesis by simp
qed

lemma Init_unfold:
  assumes K: "1 \<le> K" and fit: "K * (K + 3) \<le> INT_MAX"
  shows "Init (K # rest) pd0 =
           (case Init_loop K (K * (K + 1) div 2) 0 (row_cursor K 0)
                   (replicate (nat (K * (K + 3) div 2)) 0)
                   (replicate (nat (K * (K + 3) div 2)) 0) of
              Inl e \<Rightarrow> Inl e
            | Inr (nzc, sidx) \<Rightarrow>
                Inr (K * (K + 3) div 2,
                     pd0 \<lparr> cholesky_factor_dimension := K,
                           num_cholesky_factor_entries := K * (K + 1) div 2,
                           nonzero_column_indices := nzc,
                           start_indices := sidx \<rparr>))"
proof -
  have p: "0 \<le> K * (K + 3)" "0 \<le> K * (K + 1)" using K by simp_all
  have "K * (K + 1) \<le> K * (K + 3)" using K by (simp add: algebra_simps)
  with fit have fit': "K * (K + 1) \<le> INT_MAX" by simp
  have kk: "K \<le> K * K" using mult_left_mono [of 1 K K] K by simp
  have "K * K + 3 * K \<le> 2147483647"
    using fit by (simp add: INT_MAX_def algebra_simps)
  with kk K have K': "K + 3 \<le> INT_MAX"
    unfolding INT_MAX_def by linarith
  have ok: "int_ok (K + 3)" "int_ok (K * (K + 3))" "int_ok (K + 1)" "int_ok (K * (K + 1))"
    using K K' fit fit' p unfolding int_ok_def INT_MIN_def INT_MAX_def
    by (intro conjI; linarith)+
  have d: "int_div (K * (K + 3)) 2 = K * (K + 3) div 2"
    "int_div (K * (K + 1)) 2 = K * (K + 1) div 2"
    using p by (simp_all add: int_div_nonneg)
  have n0: "\<not> K * (K + 3) div 2 < 0" using p by simp
  show ?thesis
    unfolding Init_def using ok n0
    by (simp add: d Let_def row_cursor_def)
qed

lemma Init_Inr_fit: "Init (K # rest) pd0 = Inr x \<Longrightarrow> K * (K + 3) \<le> INT_MAX"
  by (simp add: Init_def int_ok_def split: if_splits)

lemma Init_fit_sum:
  assumes K: "1 \<le> K" and fit: "K * (K + 3) \<le> INT_MAX"
  shows "K + K * (K + 1) div 2 \<le> INT_MAX"
proof -
  have "0 \<le> K * (K + 3)" using K by simp
  then have "K * (K + 3) div 2 \<le> K * (K + 3)" by linarith
  with fit show ?thesis by (simp add: half_params)
qed

lemma Init_loop_start:
  assumes K: "1 \<le> K" and fit: "K * (K + 3) \<le> INT_MAX"
  shows "\<exists>nzc' sidx'.
           Init_loop K (K * (K + 1) div 2) 0 (row_cursor K 0)
             (replicate (nat (K * (K + 3) div 2)) 0)
             (replicate (nat (K * (K + 3) div 2)) 0) = Inr (nzc', sidx')
           \<and> length nzc' = nat (K * (K + 3) div 2)
           \<and> length sidx' = nat (K * (K + 3) div 2)
           \<and> layout_upto K (K * (K + 1) div 2) nzc' sidx'"
proof -
  let ?ne = "K * (K + 1) div 2"
  let ?n = "K * (K + 3) div 2"
  have ne: "?ne = row_start K (nat K)" using K by (simp add: row_start_total)
  have n: "?n = K + ?ne" by (rule half_params)
  have fit': "K + ?ne \<le> INT_MAX" using K fit by (rule Init_fit_sum)
  have "\<exists>nzc' sidx'. Init_loop K ?ne 0 (row_cursor K 0) (replicate (nat ?n) 0)
            (replicate (nat ?n) 0) = Inr (nzc', sidx')
          \<and> length nzc' = nat (K + ?ne) \<and> length sidx' = nat (K + ?ne)
          \<and> layout_upto K ?ne nzc' sidx'"
  proof (rule Init_loop_ok [OF K ne fit'])
    show "length (replicate (nat ?n) (0::int)) = nat (K + ?ne)" using n by simp
    show "length (replicate (nat ?n) (0::int)) = nat (K + ?ne)" using n by simp
    show "0 < nat K" using K by simp
    show "row_start K 0 \<le> 0" by simp
    show "0 \<le> row_start K (Suc 0)" using K by simp
    show "0 \<le> ?ne" using K by simp
    show "layout_upto K 0 (replicate (nat ?n) 0) (replicate (nat ?n) 0)"
      by (auto simp: layout_upto_def)
  qed
  then show ?thesis by (simp only: n)
qed

lemma Init_layout:
  assumes init: "Init (K # rest) pd0 = Inr (n, pd)" and K: "1 \<le> K"
  shows "n = K * (K + 3) div 2 \<and> K * (K + 3) \<le> INT_MAX
         \<and> cholesky_factor_dimension pd = K
         \<and> num_cholesky_factor_entries pd = K * (K + 1) div 2
         \<and> length (nonzero_column_indices pd) = nat n
         \<and> length (start_indices pd) = nat n
         \<and> layout_upto K (K * (K + 1) div 2) (nonzero_column_indices pd) (start_indices pd)
         \<and> cached_solution pd = cached_solution pd0
         \<and> cholesky_factor pd = cholesky_factor pd0"
proof -
  let ?ne = "K * (K + 1) div 2"
  let ?n = "K * (K + 3) div 2"
  have fit: "K * (K + 3) \<le> INT_MAX" using init by (rule Init_Inr_fit)
  obtain nzc' sidx' where
    loop: "Init_loop K ?ne 0 (row_cursor K 0) (replicate (nat ?n) 0)
             (replicate (nat ?n) 0) = Inr (nzc', sidx')"
    and len: "length nzc' = nat ?n" "length sidx' = nat ?n"
    and lay: "layout_upto K ?ne nzc' sidx'"
    using Init_loop_start [OF K fit] by blast
  from init have "n = ?n \<and> pd = pd0 \<lparr> cholesky_factor_dimension := K,
                           num_cholesky_factor_entries := ?ne,
                           nonzero_column_indices := nzc',
                           start_indices := sidx' \<rparr>"
    by (simp add: Init_unfold [OF K fit] loop)
  with len lay fit show ?thesis by simp
qed

lemma Init_total:
  assumes K: "1 \<le> K" and fit: "K * (K + 3) \<le> INT_MAX"
  shows "\<exists>pd. Init (K # rest) pd0 = Inr (K * (K + 3) div 2, pd)"
  using Init_loop_start [OF K fit] by (auto simp: Init_unfold [OF K fit])

lemma layout_entry:
  assumes lay: "layout_upto K (K * (K + 1) div 2) nzc sidx"
    and K: "1 \<le> K"
    and row: "K \<le> row" "row < K * (K + 3) div 2"
  shows "\<exists>r. nzc ! nat row = int r \<and> r < nat K
           \<and> int r \<le> row - sidx ! nat row + int r
           \<and> row - sidx ! nat row + int r < K"
proof -
  have "0 \<le> row - K \<and> row - K < K * (K + 1) div 2"
    using row half_params [of K] by simp
  with lay obtain r where r: "slot_row K (row - K) r"
    "nzc ! nat (K + (row - K)) = int r" "sidx ! nat (K + (row - K)) = K + row_start K r"
    unfolding layout_upto_def by blast
  then show ?thesis
    by (intro exI [of _ r]) (simp add: slot_row_def)
qed

lemma factor_upto_step:
  assumes inv: "factor_upto K parameters i M"
    and sr: "slot_row K i r'"
  shows "factor_upto K parameters (i + 1)
           (mat_set (int r') (int r' + i - row_start K r') (parameters ! nat (K + i)) M)"
proof -
  let ?col = "int r' + i - row_start K r'"
  let ?v = "parameters ! nat (K + i)"
  let ?M = "mat_set (int r') ?col ?v M"
  from sr have r': "r' < nat K" and lo: "row_start K r' \<le> i"
    and hi: "i < row_start K r' + (K - int r')"
    by (simp_all add: slot_row_def)
  from inv have lenM: "length M = nat K" and lenR: "\<And>r. r < nat K \<Longrightarrow> length (M ! r) = nat K"
    and ent: "\<And>r c. r < nat K \<Longrightarrow> c < nat K \<Longrightarrow> M ! r ! c =
           (if r \<le> c \<and> row_start K r + int c - int r < i
            then parameters ! nat (K + row_start K r + int c - int r) else 0)"
    by (simp_all add: factor_upto_def)
  have col: "0 \<le> ?col" "nat ?col < nat K" "r' \<le> nat ?col"
    using r' lo hi by simp_all
  have M: "?M = M[r' := (M ! r')[nat ?col := ?v] ]"
    by (simp add: mat_set_def)
  have rl: "r' < length M" using r' lenM by simp
  have cl: "nat ?col < length (M ! r')" using col lenR [OF r'] by simp
  have "length ?M = nat K" using lenM by (simp add: M)
  moreover have "\<forall>r<nat K. length (?M ! r) = nat K"
    using lenM lenR r' by (simp add: M nth_list_update)
  moreover have "\<forall>r c. r < nat K \<and> c < nat K \<longrightarrow>
         ?M ! r ! c =
           (if r \<le> c \<and> row_start K r + int c - int r < i + 1
            then parameters ! nat (K + row_start K r + int c - int r) else 0)"
  proof (intro allI impI)
    fix r c assume rc: "r < nat K \<and> c < nat K"
    show "?M ! r ! c =
           (if r \<le> c \<and> row_start K r + int c - int r < i + 1
            then parameters ! nat (K + row_start K r + int c - int r) else 0)"
    proof (cases "r = r' \<and> c = nat ?col")
      case True
      then have e1: "?M ! r ! c = ?v"
        using rl cl by (simp add: M)
      have e2: "row_start K r + int c - int r = i" using True col by simp
      then have e3: "K + row_start K r + int c - int r = K + i" by simp
      have e4: "r \<le> c" using True col by simp
      show ?thesis unfolding e1 e3 e2 using e4 by simp
    next
      case False
      then have same: "?M ! r ! c = M ! r ! c"
        using rl cl by (auto simp: M nth_list_update)
      have "\<not> (r \<le> c \<and> row_start K r + int c - int r = i)"
      proof
        assume a: "r \<le> c \<and> row_start K r + int c - int r = i"
        with rc have "slot_row K i r" by (auto simp: slot_row_def)
        then have "r = r'" using sr by (rule slot_row_unique)
        with a False show False by auto
      qed
      then have "(r \<le> c \<and> row_start K r + int c - int r < i + 1)
                 = (r \<le> c \<and> row_start K r + int c - int r < i)"
        by auto
      with same ent rc show ?thesis by simp
    qed
  qed
  ultimately show ?thesis unfolding factor_upto_def by blast
qed

lemma SetupCholeskyFactor_loop_ok:
  assumes K: "1 \<le> K"
    and ne: "ne = row_start K (nat K)"
    and fit: "K + ne \<le> INT_MAX"
    and len: "nat (K + ne) \<le> length parameters"
    and r: "r < nat K" "row_start K r \<le> i" "i \<le> row_start K (Suc r)"
    and i: "i \<le> ne"
    and inv: "factor_upto K parameters i M"
  shows "\<exists>M'. SetupCholeskyFactor_loop K ne parameters i (row_cursor K r) M = Inr M'
           \<and> factor_upto K parameters ne M'"
  using r i inv
proof (induction "nat (ne - i)" arbitrary: i r M)
  case 0
  then have "i = ne" by simp
  with 0 show ?case by (subst SetupCholeskyFactor_loop.simps) simp
next
  case (Suc n)
  from Suc.hyps(2) have lt: "i < ne" by simp
  have i0: "0 \<le> i"
    using Suc.prems(1,2) row_start_nonneg [of r K] by simp
  obtain r' where nr: "next_row i (row_cursor K r) = Inr (row_cursor K r')"
    and sr: "slot_row K i r'"
    using next_row_cursor [of r K i] Suc.prems(1,2,3) lt fit ne by blast
  from sr have r': "r' < nat K" and lo: "row_start K r' \<le> i"
    and hi: "i < row_start K r' + (K - int r')"
    by (simp_all add: slot_row_def)
  let ?col = "int r' + i - row_start K r'"
  let ?M = "mat_set (int r') ?col (parameters ! nat (K + i)) M"
  have s0: "0 \<le> row_start K r'" using r' by (intro row_start_nonneg) simp
  have ok: "int_ok (int r' + i)" "int_ok ?col" "int_ok (K + i)" "int_ok (i + 1)"
    using K i0 lt fit r' lo hi s0 unfolding int_ok_def INT_MIN_def INT_MAX_def
    by (intro conjI; linarith)+
  have ib: "in_bounds (K + i) parameters"
    using K i0 lt len by (simp add: in_bounds_def)
  have mb: "mat_in_bounds (int r') ?col M"
    using Suc.prems(5) r' lo hi
    by (simp add: mat_in_bounds_def in_bounds_def factor_upto_def)
  have step: "SetupCholeskyFactor_loop K ne parameters i (row_cursor K r) M
                = SetupCholeskyFactor_loop K ne parameters (i + 1) (row_cursor K r') ?M"
    using lt nr ok ib mb
    by (subst SetupCholeskyFactor_loop.simps) (simp add: row_cursor_def)
  have "\<exists>M'. SetupCholeskyFactor_loop K ne parameters (i + 1) (row_cursor K r') ?M = Inr M'
           \<and> factor_upto K parameters ne M'"
  proof (rule Suc.hyps(1))
    show "n = nat (ne - (i + 1))" using Suc.hyps(2) by simp
    show "r' < nat K" "row_start K r' \<le> i + 1" "i + 1 \<le> row_start K (Suc r')"
      using sr by (simp_all add: slot_row_def)
    show "i + 1 \<le> ne" using lt by simp
    show "factor_upto K parameters (i + 1) ?M"
      using Suc.prems(5) sr by (rule factor_upto_step)
  qed
  with step show ?case by simp
qed

lemma length_pack_upper:
  "square n F \<Longrightarrow> m \<le> n \<Longrightarrow> int (length (pack_upper F m)) = row_start (int n) m"
proof (induction m)
  case 0
  then show ?case by (simp add: pack_upper_def)
next
  case (Suc m)
  then have "int (length (pack_upper F m)) = row_start (int n) m" by simp
  moreover have "length (F ! m) = n" using Suc.prems by (simp add: square_def)
  ultimately show ?case using Suc.prems by (simp add: pack_upper_def)
qed

lemma pack_upper_split:
  "r < n \<Longrightarrow> pack_upper F n
     = pack_upper F r @ drop r (F ! r) @ concat (map (\<lambda>r. drop r (F ! r)) [Suc r..<n])"
proof -
  assume "r < n"
  then have "[0..<n] = [0..<r] @ r # [Suc r..<n]"
    by (metis upt_conv_Cons upt_add_eq_append le_add_diff_inverse less_imp_le zero_le)
  then show ?thesis by (simp add: pack_upper_def)
qed

lemma nth_pack_upper:
  assumes sq: "square n F" and r: "r < n" and rc: "r \<le> c" and c: "c < n"
  shows "pack_upper F n ! nat (row_start (int n) r + int c - int r) = F ! r ! c"
proof -
  have len: "int (length (pack_upper F r)) = row_start (int n) r"
    using sq r by (intro length_pack_upper) simp_all
  then have idx: "nat (row_start (int n) r + int c - int r) = length (pack_upper F r) + (c - r)"
    using rc by simp
  have lr: "length (F ! r) = n" using sq r by (simp add: square_def)
  let ?B = "drop r (F ! r)"
  let ?C = "concat (map (\<lambda>r. drop r (F ! r)) [Suc r..<n])"
  have d: "c - r < length ?B" using lr rc c by simp
  have "pack_upper F n ! (length (pack_upper F r) + (c - r)) = (?B @ ?C) ! (c - r)"
    by (simp only: pack_upper_split [OF r, of F] nth_append_length_plus)
  also have "\<dots> = ?B ! (c - r)" using d by (simp only: nth_append if_True)
  also have "\<dots> = F ! r ! c" using lr rc c by simp
  finally show ?thesis by (simp only: idx)
qed

lemma nth_pack_parameters:
  assumes sq: "square (nat K) F" and m: "length mean = nat K" and K: "0 \<le> K"
    and r: "r < nat K" and rc: "r \<le> c" and c: "c < nat K"
  shows "pack_parameters mean F ! nat (K + row_start K r + int c - int r) = F ! r ! c"
proof -
  have s0: "0 \<le> row_start K r" using r by (intro row_start_nonneg) simp
  have "nat (K + row_start K r + int c - int r)
          = length mean + nat (row_start K r + int c - int r)"
    using m K s0 rc by simp
  moreover have "int (nat K) = K" using K by simp
  moreover have "length F = nat K" using sq by (simp add: square_def)
  ultimately show ?thesis
    using nth_pack_upper [OF sq r rc c] by (simp add: pack_parameters_def nth_append)
qed

lemma length_pack_parameters:
  assumes sq: "square (nat K) F" and m: "length mean = nat K" and K: "0 \<le> K"
  shows "int (length (pack_parameters mean F)) = K + row_start K (nat K)"
proof -
  have "length F = nat K" using sq by (simp add: square_def)
  moreover have "int (length (pack_upper F (nat K))) = row_start (int (nat K)) (nat K)"
    using sq by (intro length_pack_upper) simp_all
  ultimately show ?thesis using m K by (simp add: pack_parameters_def)
qed

lemma factor_upto_full:
  assumes inv: "factor_upto K (pack_parameters mean F) (row_start K (nat K)) M"
    and sq: "square (nat K) F" and ut: "upper_triangular F"
    and m: "length mean = nat K" and K: "0 \<le> K"
  shows "M = F"
proof (rule nth_equalityI)
  show "length M = length F" using inv sq by (simp add: factor_upto_def square_def)
next
  fix r assume "r < length M"
  then have r: "r < nat K" using inv by (simp add: factor_upto_def)
  show "M ! r = F ! r"
  proof (rule nth_equalityI)
    show "length (M ! r) = length (F ! r)"
      using inv sq r by (simp add: factor_upto_def square_def)
  next
    fix c assume "c < length (M ! r)"
    then have c: "c < nat K" using inv r by (simp add: factor_upto_def)
    have ent: "M ! r ! c =
           (if r \<le> c \<and> row_start K r + int c - int r < row_start K (nat K)
            then pack_parameters mean F ! nat (K + row_start K r + int c - int r) else 0)"
      using inv r c by (simp add: factor_upto_def)
    show "M ! r ! c = F ! r ! c"
    proof (cases "r \<le> c")
      case True
      have "row_start K (Suc r) \<le> row_start K (nat K)"
        using r by (intro row_start_mono) simp_all
      then have "row_start K r + int c - int r < row_start K (nat K)"
        using c by simp
      with ent True nth_pack_parameters [OF sq m K r True c] show ?thesis by simp
    next
      case False
      then have "F ! r ! c = 0"
        using ut sq r by (simp add: upper_triangular_def square_def)
      with ent False show ?thesis by simp
    qed
  qed
qed

lemmas int_simps = int_ok_def INT_MIN_def INT_MAX_def int_div_def in_bounds_def eval_nat_numeral

section \<open>The modelled solve\<close>

text \<open>
  Back substitution solves the system: on a square upper-triangular factor without
  a zero on the diagonal, the vector that \<open>solve\<close> returns satisfies
  \<open>factor * x = rhs\<close>.
\<close>

lemma length_back_subst: "length (back_subst M b k) = k"
  by (induction k) (simp_all add: Let_def)

lemma drop_back_subst: "k \<le> j \<Longrightarrow> drop (j - k) (back_subst M b j) = back_subst M b k"
proof (induction j)
  case 0
  then show ?case by simp
next
  case (Suc j)
  show ?case
  proof (cases "k = Suc j")
    case True
    then show ?thesis by simp
  next
    case False
    with Suc.prems have kj: "k \<le> j" by simp
    then have "Suc j - k = Suc (j - k)" by simp
    with Suc.IH [OF kj] show ?thesis by (simp add: Let_def)
  qed
qed

lemma dot_split:
  assumes "length a = length x" and "i < length a"
  shows "dot a x = dot (take i a) (take i x) + a ! i * x ! i + dot (drop (Suc i) a) (drop (Suc i) x)"
proof -
  have a: "a = take i a @ a ! i # drop (Suc i) a"
    using assms(2) by (rule id_take_nth_drop)
  have x: "x = take i x @ x ! i # drop (Suc i) x"
    using assms by (intro id_take_nth_drop) simp
  have "zip a x = zip (take i a) (take i x) @ (a ! i, x ! i) # zip (drop (Suc i) a) (drop (Suc i) x)"
    using assms by (subst a, subst x) (simp add: zip_append del: append_take_drop_id)
  then show ?thesis by (simp add: dot_def)
qed

lemma sum_list_zeros: "(\<And>y. y \<in> set ys \<Longrightarrow> y = (0::real)) \<Longrightarrow> sum_list ys = 0"
  by (induction ys) auto

lemma dot_zero_prefix:
  assumes "\<forall>c<i. a ! c = 0" and "i \<le> length a"
  shows "dot (take i a) v = 0"
proof -
  have "y = 0" if "y \<in> set (map2 (*) (take i a) v)" for y
  proof -
    from that obtain p q where pq: "(p, q) \<in> set (zip (take i a) v)" "y = p * q" by auto
    then have "p \<in> set (take i a)" by (auto dest: set_zip_leftD)
    then obtain c where "c < i" "p = a ! c"
      using assms(2) by (auto simp: in_set_conv_nth)
    with assms(1) pq show ?thesis by simp
  qed
  then show ?thesis unfolding dot_def by (rule sum_list_zeros)
qed

lemma back_subst_row:
  assumes i: "i < length M" and nz: "M ! i ! i \<noteq> 0"
  shows "M ! i ! i * back_subst M b (length M) ! i
           + dot (drop (Suc i) (M ! i)) (drop (Suc i) (back_subst M b (length M))) = b ! i"
proof -
  let ?n = "length M"
  let ?x = "back_subst M b ?n"
  have k: "?n - i = Suc (?n - Suc i)" using i by simp
  have tail: "drop (Suc i) ?x = back_subst M b (?n - Suc i)"
    using drop_back_subst [of "?n - Suc i" ?n M b] i by simp
  have di: "drop i ?x = back_subst M b (?n - i)"
    using drop_back_subst [of "?n - i" ?n M b] i by simp
  have "?x ! i = hd (drop i ?x)"
    using i by (simp add: hd_drop_conv_nth length_back_subst)
  also have "\<dots> = hd (back_subst M b (?n - i))" by (simp only: di)
  also have "\<dots> = (b ! i - dot (drop (Suc i) (M ! i)) (back_subst M b (?n - Suc i))) / (M ! i ! i)"
    using i by (simp add: k Let_def)
  finally show ?thesis using nz by (simp add: tail)
qed

lemma solve_solves:
  assumes "solve M b = Inr x" and "square n M" and "upper_triangular M"
  shows "mat_vec M x = b"
proof -
  have len: "length M = length b" and x: "x = back_subst M b (length M)"
    and nz: "0 \<notin> set (diagonal M)"
    using assms(1) by (auto simp: solve_def split: if_splits)
  have n: "length M = n" using assms(2) by (simp add: square_def)
  show ?thesis
  proof (rule nth_equalityI)
    show "length (mat_vec M x) = length b" using len by (simp add: mat_vec_def)
  next
    fix i assume "i < length (mat_vec M x)"
    then have i: "i < length M" by (simp add: mat_vec_def)
    have row: "length (M ! i) = length x"
      using assms(2) i n by (simp add: square_def x length_back_subst)
    have d: "M ! i ! i \<noteq> 0"
      using nz i by (auto simp: diagonal_def)
    have z: "dot (take i (M ! i)) (take i x) = 0"
      using assms(3) i row by (intro dot_zero_prefix) (simp_all add: upper_triangular_def x length_back_subst)
    have "dot (M ! i) x = b ! i"
      using dot_split [OF row, of i] z back_subst_row [OF i d, of b] i row
      by (simp add: x length_back_subst)
    then show "mat_vec M x ! i = b ! i" using i by (simp add: mat_vec_def)
  qed
qed

lemma Precompute_cached_length:
  "SamplingAccumulatePrecompute parameters beta_vector pd = Inr pd'
     \<Longrightarrow> length (cached_solution pd') = length beta_vector"
  by (auto simp: SamplingAccumulatePrecompute_def mean_view_def vec_sub_def solve_def
      length_back_subst split: if_splits)

section \<open>The worked examples, evaluated\<close>

lemma Init_K1: "Init [1] PrivateData_new = Inr (2, layout_K1)"
  by (simp add: Init_def Init_loop.simps next_row_def int_simps PrivateData_new_def layout_K1_def)

lemma Init_K2: "Init [2] PrivateData_new = Inr (5, layout_K2)"
  by (simp add: Init_def Init_loop.simps next_row_def int_simps PrivateData_new_def layout_K2_def)

lemmas setup_simps = SetupDistribution_def SetupCholeskyFactor_def SetupCholeskyFactor_loop.simps
  next_row_def int_simps zeros_def mat_in_bounds_def mat_set_def

lemma Setup_K1: "SetupDistribution [m, c] layout_K1 = Inr (layout_K1 \<lparr> cholesky_factor := [ [c] ] \<rparr>)"
  by (simp add: setup_simps layout_K1_def)

lemma Setup_K2:
  "SetupDistribution [1, 2, 3, 4, 5] layout_K2 = Inr (layout_K2 \<lparr> cholesky_factor := [ [3, 4], [0, 5] ] \<rparr>)"
  by (simp add: setup_simps layout_K2_def)

lemmas solve_simps = SamplingAccumulatePrecompute_def mean_view_def vec_sub_def solve_def n_cols_def
  diagonal_def dot_def

lemma Precompute_K1:
  "c \<noteq> 0 \<Longrightarrow> SamplingAccumulatePrecompute [m, c] [b] (layout_K1 \<lparr> cholesky_factor := [ [c] ] \<rparr>)
     = Inr (layout_K1 \<lparr> cholesky_factor := [ [c] ], cached_solution := [(b - m) / c] \<rparr>)"
  by (simp add: solve_simps layout_K1_def)

lemma Precompute_K2:
  "SamplingAccumulatePrecompute [1, 2, 3, 4, 5] [58, 47]
       (layout_K2 \<lparr> cholesky_factor := [ [3, 4], [0, 5] ] \<rparr>)
     = Inr (layout_K2 \<lparr> cholesky_factor := [ [3, 4], [0, 5] ], cached_solution := [7, 9] \<rparr>)"
  by (simp add: solve_simps layout_K2_def eval_nat_numeral)

lemma DrawBeta_K1:
  "DrawBeta z (layout_K1 \<lparr> cholesky_factor := [ [c] ] \<rparr>) [m, c] = Inr [c * z 0 + m]"
  by (simp add: DrawBeta_def mean_view_def vec_add_def n_cols_def mat_vec_def dot_def layout_K1_def)

section \<open>The two blocks of the gradient\<close>

lemma gradient_upper:
  assumes "row < int (length beta_vector)"
  shows "AttributeGradientWithRespectToParameter pd parameters beta_vector row col
           = Inr (if row = col then 1 else 0)"
  using assms by (simp add: AttributeGradientWithRespectToParameter_def)

lemma gradient_lower:
  assumes lay: "layout_upto K (K * (K + 1) div 2) (nonzero_column_indices pd) (start_indices pd)"
    and len: "length (nonzero_column_indices pd) = nat (K * (K + 3) div 2)"
      "length (start_indices pd) = nat (K * (K + 3) div 2)"
    and fit: "K * (K + 3) \<le> INT_MAX"
    and K: "1 \<le> K"
    and beta: "length beta_vector = nat K"
    and row: "K \<le> row" "row < K * (K + 3) div 2"
  shows "\<exists>t. nonzero_column_indices pd ! nat row = t \<and> 0 \<le> t \<and> t < K
           \<and> t \<le> row - start_indices pd ! nat row + t
           \<and> row - start_indices pd ! nat row + t < K
           \<and> (\<forall>col. col \<noteq> t \<longrightarrow>
                 AttributeGradientWithRespectToParameter pd parameters beta_vector row col = Inr 0)
           \<and> (length (cached_solution pd) = nat K \<longrightarrow>
                 AttributeGradientWithRespectToParameter pd parameters beta_vector row t
                   = Inr (cached_solution pd ! nat (row - start_indices pd ! nat row + t)))"
proof -
  obtain r where r: "nonzero_column_indices pd ! nat row = int r" "r < nat K"
    "int r \<le> row - start_indices pd ! nat row + int r"
    "row - start_indices pd ! nat row + int r < K"
    using layout_entry [OF lay K row] by blast
  let ?s = "start_indices pd ! nat row"
  have up: "\<not> row < int (length beta_vector)" using beta row K by simp
  have ib: "in_bounds row (nonzero_column_indices pd)" "in_bounds row (start_indices pd)"
    using len row K by (simp_all add: in_bounds_def)
  have "0 \<le> K * (K + 3)" using K by simp
  then have "K * (K + 3) div 2 \<le> K * (K + 3)" by linarith
  with fit row have rmax: "row \<le> INT_MAX" by simp
  have ok: "int_ok (row - ?s)" "int_ok (row - ?s + int r)"
    using r K row rmax unfolding int_ok_def INT_MIN_def INT_MAX_def
    by (intro conjI; linarith)+
  have zero: "\<forall>col. col \<noteq> int r \<longrightarrow>
      AttributeGradientWithRespectToParameter pd parameters beta_vector row col = Inr 0"
    using up ib r(1) by (auto simp: AttributeGradientWithRespectToParameter_def)
  have hit: "length (cached_solution pd) = nat K \<longrightarrow>
      AttributeGradientWithRespectToParameter pd parameters beta_vector row (int r)
        = Inr (cached_solution pd ! nat (row - ?s + int r))"
  proof
    assume c: "length (cached_solution pd) = nat K"
    have "in_bounds (row - ?s + int r) (cached_solution pd)"
      using r c by (simp add: in_bounds_def)
    then show "AttributeGradientWithRespectToParameter pd parameters beta_vector row (int r)
        = Inr (cached_solution pd ! nat (row - ?s + int r))"
      using up ib r(1) ok by (simp add: AttributeGradientWithRespectToParameter_def)
  qed
  show ?thesis
    using r zero hit by (intro exI [of _ "int r"]) simp
qed

lemma gradient_lower_Init:
  assumes init: "Init (K # rest) pd0 = Inr (n, pd1)"
    and nzc: "nonzero_column_indices pd = nonzero_column_indices pd1"
    and sidx: "start_indices pd = start_indices pd1"
    and beta: "length beta_vector = nat K"
    and row: "K \<le> row" "row < n" and K: "1 \<le> K"
  shows "\<exists>t. nonzero_column_indices pd ! nat row = t \<and> 0 \<le> t \<and> t < K
           \<and> t \<le> row - start_indices pd ! nat row + t
           \<and> row - start_indices pd ! nat row + t < K
           \<and> (\<forall>col. col \<noteq> t \<longrightarrow>
                 AttributeGradientWithRespectToParameter pd parameters beta_vector row col = Inr 0)
           \<and> (length (cached_solution pd) = nat K \<longrightarrow>
                 AttributeGradientWithRespectToParameter pd parameters beta_vector row t
                   = Inr (cached_solution pd ! nat (row - start_indices pd ! nat row + t)))"
proof -
  note L = Init_layout [OF init K]
  show ?thesis
  proof (rule gradient_lower)
    show "layout_upto K (K * (K + 1) div 2) (nonzero_column_indices pd) (start_indices pd)"
      using L nzc sidx by simp
    show "length (nonzero_column_indices pd) = nat (K * (K + 3) div 2)"
      "length (start_indices pd) = nat (K * (K + 3) div 2)"
      using L nzc sidx by simp_all
    show "K * (K + 3) \<le> INT_MAX" using L by simp
    show "1 \<le> K" by (rule K)
    show "length beta_vector = nat K" by (rule beta)
    show "K \<le> row" by (rule row)
    show "row < K * (K + 3) div 2" using L row by simp
  qed
qed

text \<open>
  Claim C1. Let the layout tables of the context be those that \<^verbatim>\<open>Init\<close> builds
  for the dimension \<open>K\<close>, and let the cached solution and \<open>beta\<close> have length
  \<open>K\<close>. For every row index in \<open>[K, numParameters)\<close> and every column index in
  \<open>[0, K)\<close> the gradient is 0.0 when the column differs from
  \<open>nonzero_column_index[row]\<close>, and otherwise it is the entry
  \<open>row - start_index[row] + nonzero_column_index[row]\<close> of the cached solution, which
  lies inside the cached solution.
\<close>

theorem gradient_factor_block:
  assumes "Init (K # rest) pd0 = Inr (n, pd1)"
    and "nonzero_column_indices pd = nonzero_column_indices pd1"
    and "start_indices pd = start_indices pd1"
    and "length (cached_solution pd) = nat K"
    and "length beta_vector = nat K"
    and "K \<le> row_index" and "row_index < n"
    and "0 \<le> col_index" and "col_index < K"
  shows "AttributeGradientWithRespectToParameter pd parameters beta_vector row_index col_index =
           (if col_index \<noteq> nonzero_column_indices pd ! nat row_index then Inr 0
            else Inr (cached_solution pd
                   ! nat (row_index - start_indices pd ! nat row_index
                          + nonzero_column_indices pd ! nat row_index)))
         \<and> in_bounds (row_index - start_indices pd ! nat row_index
                        + nonzero_column_indices pd ! nat row_index) (cached_solution pd)"
proof -
  have K: "1 \<le> K" using assms(8,9) by simp
  from gradient_lower_Init [OF assms(1,2,3,5,6,7) K, of parameters] assms(4)
  show ?thesis by (auto simp: in_bounds_def)
qed

text \<open>
  The instance \<open>K = 2\<close> with the parameters \<open>[1, 2, 3, 4, 5]\<close> and the draw
  \<open>[58, 47]\<close>, whose cached solution is \<open>[7, 9]\<close>: parameter 4 (the last entry
  of the factor) at the columns 1 and 0.
\<close>

theorem gradient_factor_block_witness:
  "Init (2 # []) PrivateData_new = Inr (5, layout_K2)
   \<and> SetupDistribution [1, 2, 3, 4, 5] layout_K2
       = Inr (layout_K2 \<lparr> cholesky_factor := [ [3, 4], [0, 5] ] \<rparr>)
   \<and> SamplingAccumulatePrecompute [1, 2, 3, 4, 5] [58, 47]
         (layout_K2 \<lparr> cholesky_factor := [ [3, 4], [0, 5] ] \<rparr>)
       = Inr (layout_K2 \<lparr> cholesky_factor := [ [3, 4], [0, 5] ], cached_solution := [7, 9] \<rparr>)
   \<and> length [7, 9 :: real] = nat 2 \<and> length [58, 47 :: real] = nat 2
   \<and> (2::int) \<le> 4 \<and> (4::int) < 5 \<and> (0::int) \<le> 1 \<and> (1::int) < 2
   \<and> AttributeGradientWithRespectToParameter
         (layout_K2 \<lparr> cholesky_factor := [ [3, 4], [0, 5] ], cached_solution := [7, 9] \<rparr>)
         [1, 2, 3, 4, 5] [58, 47] 4 1 = Inr 9
   \<and> AttributeGradientWithRespectToParameter
         (layout_K2 \<lparr> cholesky_factor := [ [3, 4], [0, 5] ], cached_solution := [7, 9] \<rparr>)
         [1, 2, 3, 4, 5] [58, 47] 4 0 = Inr 0"
  using gradient_factor_block [of 2 "[]" PrivateData_new 5 layout_K2
      "layout_K2 \<lparr> cholesky_factor := [ [3, 4], [0, 5] ], cached_solution := [7, 9] \<rparr>"
      "[58, 47]" 4 1 "[1, 2, 3, 4, 5]"]
    gradient_factor_block [of 2 "[]" PrivateData_new 5 layout_K2
      "layout_K2 \<lparr> cholesky_factor := [ [3, 4], [0, 5] ], cached_solution := [7, 9] \<rparr>"
      "[58, 47]" 4 0 "[1, 2, 3, 4, 5]"]
    Init_K2 Setup_K2 Precompute_K2
  by (simp add: layout_K2_def eval_nat_numeral)

text \<open>
  Claim C3. For every \<open>K \<ge> 1\<close>, every row and column in \<open>[0, K)\<close> and every
  \<open>beta\<close> of length \<open>K\<close>, the gradient is 1.0 if the row equals the column and 0.0
  otherwise, whatever the context, the parameter vector and the entries of \<open>beta\<close>
  are.
\<close>

theorem gradient_mean_block:
  assumes "1 \<le> K" and "length beta_vector = nat K"
    and "0 \<le> row" and "row < K" and "0 \<le> col" and "col < K"
  shows "AttributeGradientWithRespectToParameter pd parameters beta_vector row col
           = Inr (if row = col then 1 else 0)"
  using assms by (intro gradient_upper) simp

text \<open>The instance \<open>K = 2\<close>, row 1, on the empty context.\<close>

theorem gradient_mean_block_witness:
  "(1::int) \<le> 2 \<and> length [7, 9 :: real] = nat 2 \<and> (0::int) \<le> 1 \<and> (1::int) < 2
   \<and> AttributeGradientWithRespectToParameter PrivateData_new [] [7, 9] 1 1 = Inr 1
   \<and> AttributeGradientWithRespectToParameter PrivateData_new [] [7, 9] 1 0 = Inr 0"
  using gradient_mean_block [of 2 "[7, 9]" 1 1 PrivateData_new "[]"]
    gradient_mean_block [of 2 "[7, 9]" 1 0 PrivateData_new "[]"]
  by simp

text \<open>
  Claim C4 asks for exactly one column with a nonzero gradient in every row of the
  factor block. For \<open>K = 1\<close>, parameters \<open>[0, 2]\<close> and the draw \<open>beta = [0]\<close>
  the cached solution is \<open>[0]\<close>, and the gradient of row 1 at the only column 0 is
  0.0: no column has a nonzero gradient.
\<close>

theorem gradient_all_zero_counterexample:
  "Init [1] PrivateData_new = Inr (2, layout_K1)
   \<and> SetupDistribution [0, 2] layout_K1 = Inr (layout_K1 \<lparr> cholesky_factor := [ [2] ] \<rparr>)
   \<and> SamplingAccumulatePrecompute [0, 2] [0] (layout_K1 \<lparr> cholesky_factor := [ [2] ] \<rparr>)
       = Inr (layout_K1 \<lparr> cholesky_factor := [ [2] ], cached_solution := [0] \<rparr>)
   \<and> AttributeGradientWithRespectToParameter
         (layout_K1 \<lparr> cholesky_factor := [ [2] ], cached_solution := [0] \<rparr>) [0, 2] [0] 1 0
       = Inr 0"
  using Init_K1 Setup_K1 [of 0 2] Precompute_K1 [of 2 0 0]
  by (simp add: AttributeGradientWithRespectToParameter_def layout_K1_def int_simps)

text \<open>
  Claim C4, amended. For every row in \<open>[K, numParameters)\<close> there is exactly one
  column \<open>t\<close> in \<open>[0, K)\<close>, the entry \<open>nonzero_column_index[row]\<close>, at which
  the gradient is the corresponding entry \<open>x\<close> of the cached solution; at every other
  column the gradient is 0.0. So at most one column has a nonzero gradient, and
  exactly one when \<open>x\<close> is not zero.
\<close>

theorem gradient_single_column:
  assumes "Init (K # rest) pd0 = Inr (n, pd1)"
    and "nonzero_column_indices pd = nonzero_column_indices pd1"
    and "start_indices pd = start_indices pd1"
    and "length (cached_solution pd) = nat K"
    and "length beta_vector = nat K"
    and "1 \<le> K" and "K \<le> row" and "row < n"
  shows "\<exists>t x. 0 \<le> t \<and> t < K \<and> t = nonzero_column_indices pd ! nat row
           \<and> in_bounds (row - start_indices pd ! nat row + t) (cached_solution pd)
           \<and> x = cached_solution pd ! nat (row - start_indices pd ! nat row + t)
           \<and> AttributeGradientWithRespectToParameter pd parameters beta_vector row t = Inr x
           \<and> (\<forall>col. col \<noteq> t \<longrightarrow>
                 AttributeGradientWithRespectToParameter pd parameters beta_vector row col = Inr 0)
           \<and> (x \<noteq> 0 \<longrightarrow>
                 (\<exists>!col. 0 \<le> col \<and> col < K \<and>
                    AttributeGradientWithRespectToParameter pd parameters beta_vector row col
                      \<noteq> Inr 0))"
proof -
  obtain t where t: "nonzero_column_indices pd ! nat row = t" "0 \<le> t" "t < K"
      "t \<le> row - start_indices pd ! nat row + t"
      "row - start_indices pd ! nat row + t < K"
    and zero: "\<And>col. col \<noteq> t \<Longrightarrow>
        AttributeGradientWithRespectToParameter pd parameters beta_vector row col = Inr 0"
    and hit: "AttributeGradientWithRespectToParameter pd parameters beta_vector row t
        = Inr (cached_solution pd ! nat (row - start_indices pd ! nat row + t))"
    using gradient_lower_Init [OF assms(1,2,3,5,7,8,6), of parameters] assms(4) by blast
  let ?x = "cached_solution pd ! nat (row - start_indices pd ! nat row + t)"
  have ib: "in_bounds (row - start_indices pd ! nat row + t) (cached_solution pd)"
    using t assms(4) by (simp add: in_bounds_def)
  have uniq: "?x \<noteq> 0 \<longrightarrow>
      (\<exists>!col. 0 \<le> col \<and> col < K \<and>
         AttributeGradientWithRespectToParameter pd parameters beta_vector row col \<noteq> Inr 0)"
  proof
    assume nz: "?x \<noteq> 0"
    show "\<exists>!col. 0 \<le> col \<and> col < K \<and>
         AttributeGradientWithRespectToParameter pd parameters beta_vector row col \<noteq> Inr 0"
    proof (rule ex1I [of _ t])
      show "0 \<le> t \<and> t < K \<and>
         AttributeGradientWithRespectToParameter pd parameters beta_vector row t \<noteq> Inr 0"
        using t hit nz by simp
    next
      fix col
      assume "0 \<le> col \<and> col < K \<and>
         AttributeGradientWithRespectToParameter pd parameters beta_vector row col \<noteq> Inr 0"
      then show "col = t" using zero [of col] by blast
    qed
  qed
  show ?thesis
    using t ib hit zero uniq by (intro exI [of _ t] exI [of _ ?x]) simp
qed

text \<open>
  The instance \<open>K = 2\<close>, parameter 3, with the cached solution \<open>[7, 9]\<close> of the
  draw \<open>[58, 47]\<close>.
\<close>

theorem gradient_single_column_witness:
  "Init (2 # []) PrivateData_new = Inr (5, layout_K2)
   \<and> SamplingAccumulatePrecompute [1, 2, 3, 4, 5] [58, 47]
         (layout_K2 \<lparr> cholesky_factor := [ [3, 4], [0, 5] ] \<rparr>)
       = Inr (layout_K2 \<lparr> cholesky_factor := [ [3, 4], [0, 5] ], cached_solution := [7, 9] \<rparr>)
   \<and> (1::int) \<le> 2 \<and> (2::int) \<le> 3 \<and> (3::int) < 5
   \<and> (\<exists>t x. 0 \<le> t \<and> t < 2 \<and> t = [0, 0, 0, 0, 1 :: int] ! nat 3
         \<and> x = [7, 9 :: real] ! nat (3 - [0, 0, 2, 2, 4] ! nat 3 + t)
         \<and> AttributeGradientWithRespectToParameter
               (layout_K2 \<lparr> cholesky_factor := [ [3, 4], [0, 5] ], cached_solution := [7, 9] \<rparr>)
               [1, 2, 3, 4, 5] [58, 47] 3 t = Inr x
         \<and> (\<forall>col. col \<noteq> t \<longrightarrow>
               AttributeGradientWithRespectToParameter
                 (layout_K2 \<lparr> cholesky_factor := [ [3, 4], [0, 5] ], cached_solution := [7, 9] \<rparr>)
                 [1, 2, 3, 4, 5] [58, 47] 3 col = Inr 0))"
  using gradient_single_column [of 2 "[]" PrivateData_new 5 layout_K2
      "layout_K2 \<lparr> cholesky_factor := [ [3, 4], [0, 5] ], cached_solution := [7, 9] \<rparr>"
      "[58, 47]" 3 "[1, 2, 3, 4, 5]"]
    Init_K2 Precompute_K2
  by (simp add: layout_K2_def)

text \<open>
  Claim C5 asks that a query outside the valid ranges fails. For \<open>K = 1\<close> the query
  of row 1 and column 1, whose column is out of range, returns 0.0.
\<close>

theorem gradient_out_of_range_counterexample:
  "Init [1] PrivateData_new = Inr (2, layout_K1)
   \<and> SetupDistribution [0, 2] layout_K1 = Inr (layout_K1 \<lparr> cholesky_factor := [ [2] ] \<rparr>)
   \<and> SamplingAccumulatePrecompute [0, 2] [2] (layout_K1 \<lparr> cholesky_factor := [ [2] ] \<rparr>)
       = Inr (layout_K1 \<lparr> cholesky_factor := [ [2] ], cached_solution := [1] \<rparr>)
   \<and> AttributeGradientWithRespectToParameter
         (layout_K1 \<lparr> cholesky_factor := [ [2] ], cached_solution := [1] \<rparr>) [0, 2] [2] 1 1
       = Inr 0"
  using Init_K1 Setup_K1 [of 0 2] Precompute_K1 [of 2 0 2]
  by (simp add: AttributeGradientWithRespectToParameter_def layout_K1_def int_simps)

text \<open>
  Claim C5, amended. The gradient query does not check its indices. With a row
  index below \<open>numParameters\<close>, and the row index negative or the column index
  outside \<open>[0, K)\<close>, it returns a value and no error: 1.0 when the row index is
  negative and equal to the column index, 0.0 in every other case. In particular,
  for \<open>K = 1\<close> the query of row 1 and column 1 returns 0.0.
\<close>

theorem gradient_no_range_check:
  assumes "Init (K # rest) pd0 = Inr (n, pd1)"
    and "nonzero_column_indices pd = nonzero_column_indices pd1"
    and "start_indices pd = start_indices pd1"
    and "length beta_vector = nat K"
    and "1 \<le> K" and "row < n" and "row < 0 \<or> col < 0 \<or> K \<le> col"
  shows "AttributeGradientWithRespectToParameter pd parameters beta_vector row col =
           (if row < 0 \<and> row = col then Inr 1 else Inr 0)"
proof (cases "row < K")
  case True
  then have "AttributeGradientWithRespectToParameter pd parameters beta_vector row col
           = Inr (if row = col then 1 else 0)"
    using assms(4,5) by (intro gradient_upper) simp
  with True assms(7) show ?thesis by auto
next
  case False
  then have row: "K \<le> row" by simp
  obtain t where t: "0 \<le> t" "t < K"
    and zero: "\<And>col. col \<noteq> t \<Longrightarrow>
        AttributeGradientWithRespectToParameter pd parameters beta_vector row col = Inr 0"
    using gradient_lower_Init [OF assms(1,2,3,4) row assms(6,5), of parameters] by blast
  have "col \<noteq> t" using t row assms(5,7) by auto
  with zero row assms(5) show ?thesis by simp
qed

text \<open>The instance \<open>K = 1\<close>, at row 1 and column 1 and at row -1 and column -1.\<close>

theorem gradient_no_range_check_witness:
  "Init (1 # []) PrivateData_new = Inr (2, layout_K1) \<and> (1::int) \<le> 1 \<and> (1::int) < 2
   \<and> ((1::int) < 0 \<or> (1::int) < 0 \<or> (1::int) \<le> 1)
   \<and> AttributeGradientWithRespectToParameter
         (layout_K1 \<lparr> cholesky_factor := [ [2] ], cached_solution := [1] \<rparr>) [0, 2] [2] 1 1
       = Inr 0
   \<and> AttributeGradientWithRespectToParameter
         (layout_K1 \<lparr> cholesky_factor := [ [2] ], cached_solution := [1] \<rparr>) [0, 2] [2] (- 1) (- 1)
       = Inr 1"
  using gradient_no_range_check [of 1 "[]" PrivateData_new 2 layout_K1
      "layout_K1 \<lparr> cholesky_factor := [ [2] ], cached_solution := [1] \<rparr>" "[2]" 1 1 "[0, 2]"]
    gradient_no_range_check [of 1 "[]" PrivateData_new 2 layout_K1
      "layout_K1 \<lparr> cholesky_factor := [ [2] ], cached_solution := [1] \<rparr>" "[2]" "- 1" "- 1" "[0, 2]"]
    Init_K1
  by simp

text \<open>
  Claim C7 is stated for every \<open>K \<ge> 1\<close>. For \<open>K = 46340\<close> the product
  \<open>K * (K + 3) = 2147534620\<close> exceeds the largest \<^verbatim>\<open>int\<close>, 2147483647, and
  \<^verbatim>\<open>Init\<close> does not return the parameter count 1073767310.
\<close>

theorem Init_overflow_counterexample:
  "(1::int) \<le> 46340 \<and> Init [46340] PrivateData_new = Inl SignedOverflow"
  by (simp add: Init_def int_simps)

text \<open>
  Claim C7, amended. For every \<open>K \<ge> 1\<close> with \<open>K * (K + 3) \<le> 2147483647\<close> (that
  is, \<open>K \<le> 46339\<close>), \<^verbatim>\<open>Init\<close> returns the parameter count
  \<open>K * (K + 3) / 2\<close>, sets the number of factor entries to \<open>K * (K + 1) / 2\<close>, and
  both layout tables have the length of the parameter count.
\<close>

theorem Init_counts:
  assumes "1 \<le> K" and "K * (K + 3) \<le> INT_MAX"
  shows "\<exists>pd. Init (K # rest) pd0 = Inr (K * (K + 3) div 2, pd)
           \<and> cholesky_factor_dimension pd = K
           \<and> num_cholesky_factor_entries pd = K * (K + 1) div 2
           \<and> length (nonzero_column_indices pd) = nat (K * (K + 3) div 2)
           \<and> length (start_indices pd) = nat (K * (K + 3) div 2)"
proof -
  obtain pd where init: "Init (K # rest) pd0 = Inr (K * (K + 3) div 2, pd)"
    using Init_total [OF assms] by blast
  from Init_layout [OF init assms(1)] init show ?thesis by blast
qed

text \<open>The largest dimension, \<open>K = 46339\<close>.\<close>

theorem Init_counts_witness:
  "(1::int) \<le> 46339 \<and> (46339::int) * (46339 + 3) \<le> INT_MAX
   \<and> (\<exists>pd. Init [46339] PrivateData_new = Inr (1073720969, pd)
         \<and> cholesky_factor_dimension pd = 46339
         \<and> num_cholesky_factor_entries pd = 1073674630
         \<and> length (nonzero_column_indices pd) = nat 1073720969
         \<and> length (start_indices pd) = nat 1073720969)"
  using Init_counts [of 46339 "[]" PrivateData_new] by (simp add: INT_MAX_def)

text \<open>
  Claim C10. Two non-empty input vectors with the same first element give the same
  result of \<^verbatim>\<open>Init\<close>: the same parameter count and the same context. The
  parameter count, the dimension, the entry count and both layout tables do not
  depend on the context passed in either.
\<close>

theorem Init_reads_first_element_only:
  assumes "xs \<noteq> []" and "ys \<noteq> []" and "hd xs = hd ys"
  shows "Init xs pd = Init ys pd
         \<and> map_sum id (\<lambda>(n, p). (n, cholesky_factor_dimension p, num_cholesky_factor_entries p,
                                    nonzero_column_indices p, start_indices p)) (Init xs pd)
           = map_sum id (\<lambda>(n, p). (n, cholesky_factor_dimension p, num_cholesky_factor_entries p,
                                    nonzero_column_indices p, start_indices p)) (Init ys pd')"
proof -
  obtain k xs' ys' where "xs = k # xs'" "ys = k # ys'"
    using assms by (cases xs; cases ys) auto
  then show ?thesis
    by (simp add: Init_def Let_def split: sum.splits prod.splits)
qed

text \<open>The inputs \<open>[2, 7, 9]\<close> and \<open>[2]\<close>.\<close>

theorem Init_reads_first_element_only_witness:
  "[2, 7, 9] \<noteq> ([] :: int list) \<and> [2] \<noteq> ([] :: int list) \<and> hd [2, 7, 9 :: int] = hd [2]
   \<and> Init [2, 7, 9] PrivateData_new = Inr (5, layout_K2)
   \<and> Init [2] PrivateData_new = Inr (5, layout_K2)"
  using Init_reads_first_element_only [of "[2, 7, 9]" "[2]" PrivateData_new PrivateData_new] Init_K2
  by simp

section \<open>The singular factor\<close>

lemma square_n_cols: "square n M \<Longrightarrow> n_cols M = length M"
  by (cases M) (auto simp: square_def n_cols_def)

lemma zero_on_diagonal: "i < length M \<Longrightarrow> M ! i ! i = 0 \<Longrightarrow> 0 \<in> set (diagonal M)"
  unfolding diagonal_def by (metis (mono_tags, lifting) atLeast0LessThan imageI image_set lessThan_iff set_upt)

text \<open>
  Claim C6. If the factor of the context, an \<open>n\<close> by \<open>n\<close> matrix, has a zero
  diagonal entry, then \<^verbatim>\<open>SamplingAccumulatePrecompute\<close> on a \<open>beta\<close> of
  length \<open>n\<close> ends with the SingularFactorError of the solve: no context is
  returned and nothing is cached.
\<close>

theorem singular_factor_surfaces:
  assumes "square n (cholesky_factor pd)"
    and "length beta_vector = n" and "n \<le> length parameters"
    and "i < n" and "cholesky_factor pd ! i ! i = 0"
  shows "SamplingAccumulatePrecompute parameters beta_vector pd = Inl SingularFactorError"
proof -
  have len: "length (cholesky_factor pd) = n" using assms(1) by (simp add: square_def)
  have "n_cols (cholesky_factor pd) = length (cholesky_factor pd)"
    using assms(1) by (rule square_n_cols)
  moreover have "0 \<in> set (diagonal (cholesky_factor pd))"
    using assms(4,5) len by (intro zero_on_diagonal) simp_all
  ultimately have "solve (cholesky_factor pd) (map2 (-) beta_vector (take n parameters))
      = Inl SingularFactorError"
    using len assms(2,3) by (simp add: solve_def)
  then show ?thesis
    using assms(2,3) by (simp add: SamplingAccumulatePrecompute_def mean_view_def vec_sub_def)
qed

text \<open>The instance \<open>K = 1\<close> with the parameters \<open>[5, 0]\<close>, that is \<open>c = 0\<close>.\<close>

theorem singular_factor_surfaces_witness:
  "Init [1] PrivateData_new = Inr (2, layout_K1)
   \<and> SetupDistribution [5, 0] layout_K1 = Inr (layout_K1 \<lparr> cholesky_factor := [ [0] ] \<rparr>)
   \<and> square 1 [ [0] ] \<and> length [7 :: real] = 1 \<and> 1 \<le> length [5, 0 :: real] \<and> (0::nat) < 1
   \<and> [ [0 :: real] ] ! 0 ! 0 = 0
   \<and> SamplingAccumulatePrecompute [5, 0] [7] (layout_K1 \<lparr> cholesky_factor := [ [0] ] \<rparr>)
       = Inl SingularFactorError"
  using singular_factor_surfaces [of 1 "layout_K1 \<lparr> cholesky_factor := [ [0] ] \<rparr>" "[7]" "[5, 0]" 0]
    Init_K1 Setup_K1 [of 5 0]
  by (simp add: square_def)

text \<open>
  Claim C8. For \<open>K = 1\<close> and the parameters \<open>[0, 2]\<close>: with a random source
  that returns 1.0, \<^verbatim>\<open>DrawBeta\<close> yields \<open>[2]\<close>;
  \<^verbatim>\<open>SamplingAccumulatePrecompute\<close> with \<open>beta = [2]\<close> caches \<open>[1]\<close>; the
  gradient at row 0, column 0 is 1.0 and the gradient at row 1, column 0 is 1.0.
\<close>

theorem end_to_end_K1:
  "Init [1] PrivateData_new = Inr (2, layout_K1)
   \<and> SetupDistribution [0, 2] layout_K1 = Inr (layout_K1 \<lparr> cholesky_factor := [ [2] ] \<rparr>)
   \<and> DrawBeta (\<lambda>i. 1) (layout_K1 \<lparr> cholesky_factor := [ [2] ] \<rparr>) [0, 2] = Inr [2]
   \<and> SamplingAccumulatePrecompute [0, 2] [2] (layout_K1 \<lparr> cholesky_factor := [ [2] ] \<rparr>)
       = Inr (layout_K1 \<lparr> cholesky_factor := [ [2] ], cached_solution := [1] \<rparr>)
   \<and> AttributeGradientWithRespectToParameter
         (layout_K1 \<lparr> cholesky_factor := [ [2] ], cached_solution := [1] \<rparr>) [0, 2] [2] 0 0
       = Inr 1
   \<and> AttributeGradientWithRespectToParameter
         (layout_K1 \<lparr> cholesky_factor := [ [2] ], cached_solution := [1] \<rparr>) [0, 2] [2] 1 0
       = Inr 1"
  using Init_K1 Setup_K1 [of 0 2] DrawBeta_K1 [of "\<lambda>i. 1" 2 0] Precompute_K1 [of 2 0 2]
  by (simp add: AttributeGradientWithRespectToParameter_def layout_K1_def int_simps)

text \<open>
  The values of the scenario, read off the theorem: the draw, and the two gradient
  entries on the context that holds the cached solution.
\<close>

theorem end_to_end_K1_witness:
  "DrawBeta (\<lambda>i. 1) (layout_K1 \<lparr> cholesky_factor := [ [2] ] \<rparr>) [0, 2] = Inr [2]
   \<and> AttributeGradientWithRespectToParameter
         (layout_K1 \<lparr> cholesky_factor := [ [2] ], cached_solution := [1] \<rparr>) [0, 2] [2] 0 0
       = Inr 1
   \<and> AttributeGradientWithRespectToParameter
         (layout_K1 \<lparr> cholesky_factor := [ [2] ], cached_solution := [1] \<rparr>) [0, 2] [2] 1 0
       = Inr 1"
  using end_to_end_K1 by simp

text \<open>
  Claim C9. A context returned by \<^verbatim>\<open>SetupDistribution\<close> differs from the one
  passed in at most in the factor, and a context returned by
  \<^verbatim>\<open>SamplingAccumulatePrecompute\<close> at most in the cached solution: the
  dimension, the number of factor entries and both layout tables are unchanged.
\<close>

theorem setup_and_precompute_frame:
  "(SetupDistribution parameters pd = Inr pd' \<longrightarrow>
      pd' = pd \<lparr> cholesky_factor := cholesky_factor pd' \<rparr>)
   \<and> (SamplingAccumulatePrecompute parameters beta_vector pd = Inr pd'' \<longrightarrow>
      pd'' = pd \<lparr> cached_solution := cached_solution pd'' \<rparr>)"
  by (auto simp: SetupDistribution_def SetupCholeskyFactor_def SamplingAccumulatePrecompute_def
      Let_def split: sum.splits if_splits)

text \<open>The two steps of the example \<open>K = 1\<close>.\<close>

theorem setup_and_precompute_frame_witness:
  "SetupDistribution [0, 2] layout_K1 = Inr (layout_K1 \<lparr> cholesky_factor := [ [2] ] \<rparr>)
   \<and> layout_K1 \<lparr> cholesky_factor := [ [2] ] \<rparr>
       = layout_K1 \<lparr> cholesky_factor := cholesky_factor (layout_K1 \<lparr> cholesky_factor := [ [2] ] \<rparr>) \<rparr>
   \<and> SamplingAccumulatePrecompute [0, 2] [2] (layout_K1 \<lparr> cholesky_factor := [ [2] ] \<rparr>)
       = Inr (layout_K1 \<lparr> cholesky_factor := [ [2] ], cached_solution := [1] \<rparr>)
   \<and> layout_K1 \<lparr> cholesky_factor := [ [2] ], cached_solution := [1] \<rparr>
       = layout_K1 \<lparr> cholesky_factor := [ [2] ] \<rparr>
           \<lparr> cached_solution := cached_solution
               (layout_K1 \<lparr> cholesky_factor := [ [2] ], cached_solution := [1] \<rparr>) \<rparr>"
  using setup_and_precompute_frame [of "[0, 2]" layout_K1 "layout_K1 \<lparr> cholesky_factor := [ [2] ] \<rparr>"]
    setup_and_precompute_frame [of "[0, 2]" "layout_K1 \<lparr> cholesky_factor := [ [2] ] \<rparr>" _ "[2]"
      "layout_K1 \<lparr> cholesky_factor := [ [2] ], cached_solution := [1] \<rparr>"]
    Setup_K1 [of 0 2] Precompute_K1 [of 2 0 2]
  by simp

section \<open>The factor is rebuilt from the packed parameters\<close>

lemma factor_upto_zeros:
  assumes K: "0 \<le> K"
  shows "factor_upto K parameters 0 (zeros (nat K))"
proof -
  have "\<not> (r \<le> c \<and> row_start K r + int c - int r < 0)" if "r < nat K" for r c
  proof -
    have "0 \<le> row_start K r" using that by (intro row_start_nonneg) simp
    then show ?thesis by auto
  qed
  then show ?thesis unfolding factor_upto_def zeros_def by auto
qed

lemma SetupCholeskyFactor_pack:
  assumes K: "1 \<le> K" and fit: "K * (K + 3) \<le> INT_MAX"
    and dim: "cholesky_factor_dimension pd = K"
    and ne: "num_cholesky_factor_entries pd = K * (K + 1) div 2"
    and m: "length mean = nat K"
    and sq: "square (nat K) F" and ut: "upper_triangular F"
  shows "SetupCholeskyFactor (pack_parameters mean F) pd = Inr (pd \<lparr> cholesky_factor := F \<rparr>)"
proof -
  let ?p = "pack_parameters mean F"
  let ?ne = "row_start K (nat K)"
  have K0: "0 \<le> K" using K by simp
  have ne': "K * (K + 1) div 2 = ?ne" using K0 by (simp add: row_start_total)
  have fit': "K + ?ne \<le> INT_MAX" using Init_fit_sum [OF K fit] ne' by simp
  have "int (length ?p) = K + ?ne" using sq m K0 by (rule length_pack_parameters)
  then have len: "nat (K + ?ne) \<le> length ?p" by simp
  have "\<exists>M'. SetupCholeskyFactor_loop K ?ne ?p 0 (row_cursor K 0) (zeros (nat K)) = Inr M'
           \<and> factor_upto K ?p ?ne M'"
  proof (rule SetupCholeskyFactor_loop_ok [OF K refl fit' len])
    show "0 < nat K" using K by simp
    show "row_start K 0 \<le> 0" by simp
    show "0 \<le> row_start K (Suc 0)" using K by simp
    show "0 \<le> ?ne" using row_start_nonneg [of "nat K" K] by simp
    show "factor_upto K ?p 0 (zeros (nat K))" using K0 by (rule factor_upto_zeros)
  qed
  then obtain M' where loop: "SetupCholeskyFactor_loop K ?ne ?p 0 (row_cursor K 0) (zeros (nat K)) = Inr M'"
    and inv: "factor_upto K ?p ?ne M'" by blast
  have "M' = F" using inv sq ut m K0 by (rule factor_upto_full)
  with loop show ?thesis
    using K dim ne ne' by (simp add: SetupCholeskyFactor_def row_cursor_def)
qed

text \<open>
  Claim C2. Let the dimension and the entry count of the context be those that
  \<^verbatim>\<open>Init\<close> sets for \<open>K \<ge> 1\<close>. For every mean of length \<open>K\<close> and every
  \<open>K\<close> by \<open>K\<close> factor \<open>F\<close> that is zero below the diagonal,
  \<^verbatim>\<open>SetupDistribution\<close> on the packed parameter vector (the mean, then the
  upper entries of \<open>F\<close> row by row) stores exactly \<open>F\<close> in the context; the
  packed vector has the length of the parameter count.
\<close>

theorem SetupDistribution_round_trip:
  assumes "Init (K # rest) pd0 = Inr (n, pd1)"
    and "cholesky_factor_dimension pd = cholesky_factor_dimension pd1"
    and "num_cholesky_factor_entries pd = num_cholesky_factor_entries pd1"
    and "1 \<le> K" and "length mean = nat K"
    and "square (nat K) F" and "upper_triangular F"
  shows "SetupDistribution (pack_parameters mean F) pd = Inr (pd \<lparr> cholesky_factor := F \<rparr>)
         \<and> int (length (pack_parameters mean F)) = n"
proof -
  note L = Init_layout [OF assms(1,4)]
  have "SetupCholeskyFactor (pack_parameters mean F) pd = Inr (pd \<lparr> cholesky_factor := F \<rparr>)"
    using assms(4) _ _ _ assms(5,6,7)
  proof (rule SetupCholeskyFactor_pack)
    show "K * (K + 3) \<le> INT_MAX" using L by simp
    show "cholesky_factor_dimension pd = K" using L assms(2) by simp
    show "num_cholesky_factor_entries pd = K * (K + 1) div 2" using L assms(3) by simp
  qed
  moreover have "int (length (pack_parameters mean F)) = n"
    using length_pack_parameters [OF assms(6,5)] assms(4) L
    by (simp add: row_start_total half_params)
  ultimately show ?thesis by (simp add: SetupDistribution_def)
qed

text \<open>
  The instance \<open>K = 2\<close>: the parameters \<open>[1, 2, 3, 4, 5]\<close> pack the mean
  \<open>[1, 2]\<close> and the factor \<open>[ [3, 4], [0, 5] ]\<close>, which is the factor built.
\<close>

theorem SetupDistribution_round_trip_witness:
  "Init (2 # []) PrivateData_new = Inr (5, layout_K2) \<and> (1::int) \<le> 2 \<and> length [1, 2 :: real] = nat 2
   \<and> square (nat 2) [ [3, 4], [0, 5] ] \<and> upper_triangular [ [3, 4], [0, 5] ]
   \<and> pack_parameters [1, 2] [ [3, 4], [0, 5] ] = [1, 2, 3, 4, 5]
   \<and> SetupDistribution [1, 2, 3, 4, 5] layout_K2
       = Inr (layout_K2 \<lparr> cholesky_factor := [ [3, 4], [0, 5] ] \<rparr>)"
proof -
  have sq: "square (nat 2) [ [3, 4], [0, 5] ]"
    by (simp add: square_def less_Suc_eq eval_nat_numeral)
  have ut: "upper_triangular [ [3, 4], [0, 5] ]"
    by (simp add: upper_triangular_def less_Suc_eq eval_nat_numeral)
  have pk: "pack_parameters [1, 2] [ [3, 4], [0, 5] ] = [1, 2, 3, 4, 5]"
    by (simp add: pack_parameters_def pack_upper_def eval_nat_numeral)
  have m: "length [1, 2 :: real] = nat 2" by simp
  from SetupDistribution_round_trip [OF Init_K2 refl refl _ m sq ut]
  show ?thesis using sq ut pk Init_K2 by simp
qed

end
